theory Spec2Isabelle
  imports Complex_Main "HOL-Library.Sublist"
begin

section \<open>Data model (src/types/bset.ts)\<close>

text \<open>
  Strings are lists of code units. The model covers text whose code units are below 256
  (the Latin-1 range), which is what an 8-bit \<open>char\<close> holds. An optional field of the
  TypeScript interfaces (\<open>citation?: string\<close>, \<open>parent_id?: string | null\<close>) is an
  \<open>option\<close>; \<open>undefined\<close> and \<open>null\<close> are both \<open>None\<close>, since the code reads these
  fields through \<open>!x\<close> and \<open>x || ...\<close> only, which treat the two alike (the one input
  for which they differ, \<open>max_iterations\<close>, has a type of its own below). Only the fields that the
  controller and the validation engine read are kept. A field whose name is taken in
  Isabelle, or by another record, carries a prefix: \<open>item_id\<close> and \<open>node_id\<close> for
  \<open>id\<close>, \<open>item_notes\<close> for \<open>notes\<close>, \<open>seg_text\<close> for \<open>text\<close>, \<open>constraint_path\<close> for
  \<open>path\<close>, \<open>bset_items\<close> for \<open>items\<close> and \<open>meta_headings\<close> for \<open>_meta.headings\<close>.
\<close>

record BSetItem =
  item_id :: string
  name :: "string option"
  citation :: "string option"
  holding :: "string option"
  rule_of_law :: "string option"
  rule :: "string option"
  item_notes :: "string option"
  taxonomy_path :: "string list"

record TaxonomyNode =
  node_id :: string
  title :: string
  parent_id :: "string option"

record ContentSegment =
  seg_text :: "string option"

datatype Content = ContentString string | ContentSegments "ContentSegment list"

record ConstraintObject =
  constraint_path :: "string list"
  content :: Content
  is_test_standard :: bool
  is_element_factor :: bool

record AuthorizedContext =
  reasoning_objects :: "BSetItem list"
  constraint_objects :: "ConstraintObject list"
  analytical_path :: "string list"
  target_node :: TaxonomyNode


text \<open>
  The validation report. A check type and a status are string-literal unions in the
  source; the optional severity and action are \<open>undefined\<close> until the aggregation sets
  them. A number is the real value of an IEEE double; the arithmetic of the similarity
  rounds every result to the nearest double (section on double arithmetic below).
\<close>

datatype CheckType =
  citation_verification | rule_to_field_mapping | constraint_compliance | schema_conformance

datatype CheckStatus = PASS | FAIL | WARNING

record ValidationCheck =
  check_type :: CheckType
  status :: CheckStatus
  details :: string
  failed_assertion :: "string option"
  best_match_similarity :: "real option"
  threshold :: "real option"
  missing_element :: "string option"

datatype OverallStatus = PASSED | FAILED

datatype Severity = MINOR | MAJOR | CRITICAL

datatype RecommendedAction = CORRECT | REGENERATE | REJECT

record ValidationResult =
  overall_status :: OverallStatus
  validation_checks :: "ValidationCheck list"
  severity :: "Severity option"
  recommended_action :: "RecommendedAction option"

section \<open>Retrieval of reasoning objects (controller, step 3)\<close>

text \<open>
  \<open>path1.every((id, idx) => id === path2[idx])\<close>: the callback sees each element with its
  index. Both callers check the lengths first, so every index read is in range.
\<close>

definition every_indexed :: "('a \<Rightarrow> nat \<Rightarrow> bool) \<Rightarrow> 'a list \<Rightarrow> bool" where
  "every_indexed f xs = list_all (\<lambda>(x, i). f x i) (zip xs [0..<length xs])"

definition pathsMatch :: "string list \<Rightarrow> string list \<Rightarrow> bool" where
  "pathsMatch path1 path2 =
     (if length path1 \<noteq> length path2 then False
      else every_indexed (\<lambda>ident idx. ident = path2 ! idx) path1)"

definition isAnalyticalPathPrefixOfItem :: "string list \<Rightarrow> string list \<Rightarrow> bool" where
  "isAnalyticalPathPrefixOfItem analyticalPath itemPath =
     (if length analyticalPath > length itemPath then False
      else every_indexed (\<lambda>ident idx. ident = itemPath ! idx) analyticalPath)"

text \<open>
  The loop of \<open>retrieveReasoningObjects\<close> carries the two arrays it pushes to; an exact
  match is pushed to the first and the loop continues with the next item.
\<close>

fun retrieve_loop ::
  "string list \<Rightarrow> BSetItem list \<Rightarrow> BSetItem list \<Rightarrow> BSetItem list
    \<Rightarrow> BSetItem list \<times> BSetItem list" where
  "retrieve_loop analyticalPath [] exactMatches inheritedMatches =
     (exactMatches, inheritedMatches)"
| "retrieve_loop analyticalPath (item # items) exactMatches inheritedMatches =
     (if pathsMatch (taxonomy_path item) analyticalPath
      then retrieve_loop analyticalPath items (exactMatches @ [item]) inheritedMatches
      else if isAnalyticalPathPrefixOfItem analyticalPath (taxonomy_path item)
      then retrieve_loop analyticalPath items exactMatches (inheritedMatches @ [item])
      else retrieve_loop analyticalPath items exactMatches inheritedMatches)"

definition retrieveReasoningObjects :: "string list \<Rightarrow> BSetItem list \<Rightarrow> BSetItem list" where
  "retrieveReasoningObjects analyticalPath items =
     (case retrieve_loop analyticalPath items [] [] of
        (exactMatches, inheritedMatches) \<Rightarrow> exactMatches @ inheritedMatches)"

section \<open>JavaScript string primitives\<close>

text \<open>
  The code unit of a character, and the character classes of the regular expressions
  the source uses. Within the Latin-1 range, \<open>\s\<close> matches TAB, LF, VT, FF, CR, space
  and the no-break space (160); \<open>\w\<close> is \<open>[A-Za-z0-9_]\<close>; \<open>\d\<close> is \<open>[0-9]\<close>.
\<close>

definition code_unit :: "char \<Rightarrow> nat" where
  "code_unit c = of_char c"

definition is_space :: "char \<Rightarrow> bool" where
  "is_space c = (code_unit c \<in> {9, 10, 11, 12, 13, 32, 160})"

definition is_upper :: "char \<Rightarrow> bool" where
  "is_upper c = (65 \<le> code_unit c \<and> code_unit c \<le> 90)"

definition is_lower :: "char \<Rightarrow> bool" where
  "is_lower c = (97 \<le> code_unit c \<and> code_unit c \<le> 122)"

definition is_alpha :: "char \<Rightarrow> bool" where
  "is_alpha c = (is_lower c \<or> is_upper c)"

definition is_digit :: "char \<Rightarrow> bool" where
  "is_digit c = (48 \<le> code_unit c \<and> code_unit c \<le> 57)"

definition is_word :: "char \<Rightarrow> bool" where
  "is_word c = (is_alpha c \<or> is_digit c \<or> c = CHR ''_'')"

text \<open>
  \<open>String.prototype.toLowerCase\<close>: within Latin-1 it maps \<open>A\<close>--\<open>Z\<close> and the code
  units 192--222 other than the multiplication sign (215) to the code unit 32 above.
\<close>

definition toLowerCase_unit :: "char \<Rightarrow> char" where
  "toLowerCase_unit c =
     (if is_upper c \<or> (192 \<le> code_unit c \<and> code_unit c \<le> 222 \<and> code_unit c \<noteq> 215)
      then char_of (code_unit c + 32) else c)"

definition toLowerCase :: "string \<Rightarrow> string" where
  "toLowerCase s = map toLowerCase_unit s"

text \<open>
  \<open>s.split(/C+/)\<close> for a character class \<open>C\<close>: the pieces between the maximal runs of
  separator characters. A separator run at the start or the end of the string leaves an
  empty piece there, and the empty string splits into one empty piece.
\<close>

function split_runs :: "(char \<Rightarrow> bool) \<Rightarrow> string \<Rightarrow> string list" where
  "split_runs sep s =
     (let rest = dropWhile (\<lambda>c. \<not> sep c) s in
      if rest = [] then [takeWhile (\<lambda>c. \<not> sep c) s]
      else takeWhile (\<lambda>c. \<not> sep c) s # split_runs sep (dropWhile sep (tl rest)))"
  by pat_completeness auto
termination
proof (relation "measure (\<lambda>(sep, s). length s)")
  show "wf (measure (\<lambda>(sep, s). length s))" by simp
next
  fix sep :: "char \<Rightarrow> bool" and s rest :: string
  assume r: "rest = dropWhile (\<lambda>c. \<not> sep c) s" and ne: "rest \<noteq> []"
  have "length (dropWhile sep (tl rest)) \<le> length (tl rest)"
    by (rule length_dropWhile_le)
  also have "\<dots> < length rest" using ne by (cases rest) simp_all
  also have "\<dots> \<le> length s" unfolding r by (rule length_dropWhile_le)
  finally show "((sep, dropWhile sep (tl rest)), (sep, s)) \<in> measure (\<lambda>(sep, s). length s)"
    by simp
qed

text \<open>
  The equation of \<open>split_runs\<close> holds for every argument, so it is no rewrite rule by
  default; it is unfolded where needed.
\<close>

declare split_runs.simps [simp del]

text \<open>\<open>s.includes(sub)\<close>: \<open>sub\<close> occurs in \<open>s\<close> as a contiguous substring.\<close>

fun str_includes :: "string \<Rightarrow> string \<Rightarrow> bool" where
  "str_includes [] sub = (sub = [])"
| "str_includes (c # cs) sub = (prefix sub (c # cs) \<or> str_includes cs sub)"

definition trim :: "string \<Rightarrow> string" where
  "trim s = rev (dropWhile is_space (rev (dropWhile is_space s)))"

text \<open>\<open>s.replace(/\s+/g, ' ')\<close>: every maximal run of white space becomes one space.\<close>

function collapse_spaces :: "string \<Rightarrow> string" where
  "collapse_spaces [] = []"
| "collapse_spaces (c # cs) =
     (if is_space c then CHR '' '' # collapse_spaces (dropWhile is_space cs)
      else c # collapse_spaces cs)"
  by pat_completeness auto
termination
  by (relation "measure length") (auto simp: le_imp_less_Suc length_dropWhile_le)

text \<open>\<open>s.replace(/[^\w\s]/g, '')\<close> and \<open>s.replace(/[^\w\s]/g, ' ')\<close>.\<close>

definition strip_punctuation :: "string \<Rightarrow> string" where
  "strip_punctuation s = filter (\<lambda>c. is_word c \<or> is_space c) s"

definition blank_punctuation :: "string \<Rightarrow> string" where
  "blank_punctuation s = map (\<lambda>c. if is_word c \<or> is_space c then c else CHR '' '') s"

text \<open>\<open>[...new Set(xs)]\<close>: the first occurrence of every element, in insertion order.\<close>

definition uniq :: "'a list \<Rightarrow> 'a list" where
  "uniq xs = fold (\<lambda>x acc. if x \<in> set acc then acc else acc @ [x]) xs []"

fun join :: "string \<Rightarrow> string list \<Rightarrow> string" where
  "join sep [] = []"
| "join sep [x] = x"
| "join sep (x # y # ys) = x @ sep @ join sep (y # ys)"

text \<open>The decimal digits of a length, as a template literal prints it.\<close>

fun string_of_nat :: "nat \<Rightarrow> string" where
  "string_of_nat n =
     (if n < 10 then [char_of (48 + n)]
      else string_of_nat (n div 10) @ [char_of (48 + n mod 10)])"

declare string_of_nat.simps [simp del]

text \<open>\<open>x || ''\<close> for an optional string: an absent value reads as the empty string.\<close>

definition or_empty :: "string option \<Rightarrow> string" where
  "or_empty x = (case x of None \<Rightarrow> [] | Some v \<Rightarrow> v)"

section \<open>Regular expressions of the citation patterns\<close>

text \<open>
  A backtracking matcher for the fragment the two citation patterns use: a character
  class, concatenation and the greedy star. \<open>rx_match r s\<close> lists, in the order in which
  the backtracking search tries them, what remains of \<open>s\<close> after each way of matching
  \<open>r\<close> at its start: the head of the list is the match the engine reports. An
  iteration of a star that consumes nothing is rejected, as ECMAScript does.
\<close>

datatype rx = Cls "char \<Rightarrow> bool" | Cat rx rx | Star rx

definition Chr :: "char \<Rightarrow> rx" where
  "Chr c = Cls (\<lambda>x. x = c)"

definition Plus :: "rx \<Rightarrow> rx" where
  "Plus r = Cat r (Star r)"

fun rx_match :: "rx \<Rightarrow> string \<Rightarrow> string list" where
  "rx_match (Cls P) s = (case s of [] \<Rightarrow> [] | c # cs \<Rightarrow> if P c then [cs] else [])"
| "rx_match (Cat a b) s = concat (map (rx_match b) (rx_match a s))"
| "rx_match (Star a) s =
     concat (map (\<lambda>s'. if length s' < length s then rx_match (Star a) s' else [])
                 (rx_match a s)) @ [s]"

text \<open>
  The equation of the star mentions the star again, so it is no rewrite rule by default.
\<close>

declare rx_match.simps(3) [simp del]

text \<open>\<open>[A-Z][a-zA-Z]+(?:\s+[A-Z][a-zA-Z]+)*\<close>, each of the two groups of pattern 1.\<close>

definition rx_name :: rx where
  "rx_name = Cat (Cat (Cls is_upper) (Plus (Cls is_alpha)))
     (Star (Cat (Plus (Cls is_space)) (Cat (Cls is_upper) (Plus (Cls is_alpha)))))"

text \<open>\<open>\s+v\.\s+\<close>, between the two groups.\<close>

definition rx_versus :: rx where
  "rx_versus = Cat (Plus (Cls is_space))
     (Cat (Chr CHR ''v'') (Cat (Chr CHR ''.'') (Plus (Cls is_space))))"

text \<open>\<open>\d+\s+U\.S\.\s+\d+\<close>.\<close>

definition pattern2 :: rx where
  "pattern2 = Cat (Plus (Cls is_digit)) (Cat (Plus (Cls is_space))
     (Cat (Chr CHR ''U'') (Cat (Chr CHR ''.'') (Cat (Chr CHR ''S'') (Cat (Chr CHR ''.'')
     (Cat (Plus (Cls is_space)) (Plus (Cls is_digit))))))))"

text \<open>
  Pattern 1 at the start of \<open>s\<close>: the two captured groups and the rest of the text after
  the match, for each way of matching, in search order.
\<close>

definition pattern1_at :: "string \<Rightarrow> (string \<times> string \<times> string) list" where
  "pattern1_at s =
     concat (map (\<lambda>r1. concat (map (\<lambda>r2. map (\<lambda>r3.
        (take (length s - length r1) s, take (length r2 - length r3) r2, r3))
        (rx_match rx_name r2)) (rx_match rx_versus r1))) (rx_match rx_name s))"

text \<open>The leftmost match: the first start position at which the pattern matches.\<close>

fun pattern1_find :: "string \<Rightarrow> (string \<times> string \<times> string) option" where
  "pattern1_find [] = None"
| "pattern1_find (c # cs) =
     (case pattern1_at (c # cs) of m # _ \<Rightarrow> Some m | [] \<Rightarrow> pattern1_find cs)"

fun pattern2_find :: "string \<Rightarrow> (string \<times> string) option" where
  "pattern2_find [] = None"
| "pattern2_find (c # cs) =
     (case rx_match pattern2 (c # cs) of
        r # _ \<Rightarrow> Some (take (length (c # cs) - length r) (c # cs), r)
      | [] \<Rightarrow> pattern2_find cs)"

text \<open>Every match is a suffix of the text, and both patterns consume a character.\<close>

lemma rx_match_suffix: "s' \<in> set (rx_match r s) \<Longrightarrow> suffix s' s"
proof (induction r s arbitrary: s' rule: rx_match.induct)
  case (1 P s)
  then show ?case
    by (cases s) (auto split: if_splits simp: suffix_Cons)
next
  case (2 a b s)
  from 2(3) obtain m where "m \<in> set (rx_match a s)" "s' \<in> set (rx_match b m)"
    by auto
  with 2(1,2) show ?case
    by (meson suffix_order.trans)
next
  case (3 a s)
  from 3(3) rx_match.simps(3) [of a s] consider "s' = s"
    | m where "m \<in> set (rx_match a s)" "length m < length s" "s' \<in> set (rx_match (Star a) m)"
    by (auto split: if_splits)
  then show ?case
  proof cases
    case 1
    then show ?thesis by simp
  next
    case 2
    with 3(1,2) show ?thesis
      by (meson suffix_order.trans)
  qed
qed

lemma rx_match_Cls_Cat_shorter:
  "s' \<in> set (rx_match (Cat (Cls P) b) s) \<Longrightarrow> length s' < length s"
proof -
  assume "s' \<in> set (rx_match (Cat (Cls P) b) s)"
  then obtain c cs where s: "s = c # cs" and "s' \<in> set (rx_match b cs)"
    by (auto split: list.splits if_splits)
  then have "suffix s' cs"
    by (simp add: rx_match_suffix)
  then show ?thesis
    using s by (auto dest: suffix_length_le)
qed

lemma rx_name_shorter: "s' \<in> set (rx_match rx_name s) \<Longrightarrow> length s' < length s"
proof -
  assume "s' \<in> set (rx_match rx_name s)"
  then obtain m where m: "m \<in> set (rx_match (Cat (Cls is_upper) (Plus (Cls is_alpha))) s)"
    and s': "s' \<in> set (rx_match (Star (Cat (Plus (Cls is_space))
        (Cat (Cls is_upper) (Plus (Cls is_alpha))))) m)"
    unfolding rx_name_def rx_match.simps(2) by auto
  from m have "length m < length s"
    by (rule rx_match_Cls_Cat_shorter)
  moreover from s' have "length s' \<le> length m"
    by (auto dest!: rx_match_suffix suffix_length_le)
  ultimately show ?thesis by simp
qed

lemma pattern1_at_shorter:
  "(m1, m2, r) \<in> set (pattern1_at s) \<Longrightarrow> length r < length s"
proof -
  assume "(m1, m2, r) \<in> set (pattern1_at s)"
  then obtain r1 r2 where "r1 \<in> set (rx_match rx_name s)" "r2 \<in> set (rx_match rx_versus r1)"
    "r \<in> set (rx_match rx_name r2)"
    by (auto simp: pattern1_at_def)
  then have "length r1 < length s" "length r2 \<le> length r1" "length r < length r2"
    by (auto dest: rx_name_shorter rx_match_suffix suffix_length_le)
  then show ?thesis by simp
qed

lemma pattern1_find_shorter:
  "pattern1_find s = Some (m1, m2, r) \<Longrightarrow> length r < length s"
proof (induction s)
  case Nil
  then show ?case by simp
next
  case (Cons c cs)
  show ?case
  proof (cases "pattern1_at (c # cs)")
    case Nil
    with Cons show ?thesis by (simp add: less_Suc_eq)
  next
    case (Cons m ms)
    with Cons.prems have "(m1, m2, r) \<in> set (pattern1_at (c # cs))" by simp
    then show ?thesis by (rule pattern1_at_shorter)
  qed
qed

lemma pattern2_shorter: "r \<in> set (rx_match pattern2 s) \<Longrightarrow> length r < length s"
proof -
  assume "r \<in> set (rx_match pattern2 s)"
  then obtain b where "r \<in> set (rx_match (Cat (Cat (Cls is_digit) (Star (Cls is_digit))) b) s)"
    unfolding pattern2_def Plus_def by blast
  then obtain m where m: "m \<in> set (rx_match (Cat (Cls is_digit) (Star (Cls is_digit))) s)"
    and r: "r \<in> set (rx_match b m)"
    unfolding rx_match.simps(2) [of "Cat (Cls is_digit) (Star (Cls is_digit))"] by auto
  from m have "length m < length s"
    by (rule rx_match_Cls_Cat_shorter)
  moreover from r have "length r \<le> length m"
    by (auto dest!: rx_match_suffix suffix_length_le)
  ultimately show ?thesis by simp
qed

lemma pattern2_find_shorter:
  "pattern2_find s = Some (m, r) \<Longrightarrow> length r < length s"
proof (induction s)
  case Nil
  then show ?case by simp
next
  case (Cons c cs)
  show ?case
  proof (cases "rx_match pattern2 (c # cs)")
    case Nil
    with Cons show ?thesis by (simp add: less_Suc_eq)
  next
    case (Cons x xs)
    with Cons.prems have "r \<in> set (rx_match pattern2 (c # cs))" by simp
    then show ?thesis by (rule pattern2_shorter)
  qed
qed

text \<open>
  The loop \<open>while ((match = pattern.exec(text)) !== null)\<close> of a global pattern: each
  search starts where the previous match ended.
\<close>

function pattern1_exec :: "string \<Rightarrow> string list" where
  "pattern1_exec s =
     (case pattern1_find s of
        None \<Rightarrow> []
      | Some (m1, m2, r) \<Rightarrow> (m1 @ '' v. '' @ m2) # pattern1_exec r)"
  by pat_completeness auto
termination
  by (relation "measure length") (auto dest: pattern1_find_shorter)

declare pattern1_exec.simps [simp del]

function pattern2_exec :: "string \<Rightarrow> string list" where
  "pattern2_exec s =
     (case pattern2_find s of
        None \<Rightarrow> []
      | Some (m, r) \<Rightarrow> m # pattern2_exec r)"
  by pat_completeness auto
termination
  by (relation "measure length") (auto dest: pattern2_find_shorter)

declare pattern2_exec.simps [simp del]

section \<open>Arithmetic of IEEE doubles\<close>

text \<open>
  A JavaScript number is an IEEE 754 double: 53 significant bits, every operation
  rounded to the nearest double, ties to the even significand. \<open>to_double x\<close> is that
  rounding of the real \<open>x\<close>: with \<open>binade x\<close> the exponent of the power of two at or below
  \<open>\<bar>x\<bar>\<close>, the doubles near \<open>x\<close> are the integer multiples of \<open>2 powr (binade x - 52)\<close>.
  The exponent range is not modelled: the numbers below are counts of words, sums of
  their products, square roots and one quotient, which for a text that a JavaScript
  string can hold (fewer than \<open>2^53\<close> code units) stay far inside the range of normal
  doubles, so no operation overflows, underflows or yields NaN. \<open>Math.sqrt\<close> is the
  correctly rounded square root. A double is represented by its real value, so \<open><\<close>,
  \<open>Math.max\<close> and \<open>Math.min\<close> are those of the reals.
\<close>

definition round_half_even :: "real \<Rightarrow> int" where
  "round_half_even y =
     (if y - of_int \<lfloor>y\<rfloor> < 1 / 2 then \<lfloor>y\<rfloor>
      else if y - of_int \<lfloor>y\<rfloor> > 1 / 2 then \<lfloor>y\<rfloor> + 1
      else if even \<lfloor>y\<rfloor> then \<lfloor>y\<rfloor> else \<lfloor>y\<rfloor> + 1)"

definition binade :: "real \<Rightarrow> int" where
  "binade x = \<lfloor>log 2 \<bar>x\<bar>\<rfloor>"

definition to_double :: "real \<Rightarrow> real" where
  "to_double x =
     (if x = 0 then 0
      else of_int (round_half_even (x / 2 powr of_int (binade x - 52)))
             * 2 powr of_int (binade x - 52))"

section \<open>Similarity (computeCosineSimilarity, computeSimilarity)\<close>

text \<open>
  The controller's \<open>computeCosineSimilarity\<close> and the validation engine's
  \<open>computeSimilarity\<close> have the same body: the cosine of the two term-frequency vectors
  over the words of both texts. \<open>reduce\<close> is a left fold; the callback of the dot product
  reads \<open>vector2[i]\<close> at the index of the element, and both vectors have the length of
  \<open>allWords\<close>. A count is the \<open>length\<close> of a filtered array, an integer that a double
  holds exactly; every product, sum, square root and quotient is rounded by \<open>to_double\<close>.
\<close>

definition computeSimilarity :: "string \<Rightarrow> string \<Rightarrow> real" where
  "computeSimilarity text1 text2 =
     (let words1 = split_runs is_space (toLowerCase text1);
          words2 = split_runs is_space (toLowerCase text2);
          allWords = uniq (words1 @ words2);
          vector1 = map (\<lambda>word. real (length (filter (\<lambda>w. w = word) words1))) allWords;
          vector2 = map (\<lambda>word. real (length (filter (\<lambda>w. w = word) words2))) allWords;
          dotProduct = foldl (\<lambda>sum (val, i). to_double (sum + to_double (val * vector2 ! i))) 0
                         (zip vector1 [0..<length vector1]);
          magnitude1 = to_double (sqrt
                         (foldl (\<lambda>sum val. to_double (sum + to_double (val * val))) 0 vector1));
          magnitude2 = to_double (sqrt
                         (foldl (\<lambda>sum val. to_double (sum + to_double (val * val))) 0 vector2))
      in if magnitude1 = 0 \<or> magnitude2 = 0 then 0
         else to_double (dotProduct / to_double (magnitude1 * magnitude2)))"


section \<open>Controller (steps 1, 2, 4 and 5, and the orchestration)\<close>


subsection \<open>Step 1: the target node\<close>






subsection \<open>Step 2: the analytical path\<close>



subsection \<open>Step 4: constraint objects\<close>


subsection \<open>Step 5 and the orchestration\<close>




section \<open>Validation engine\<close>

subsection \<open>Citation verification\<close>

definition extractCitations :: "string \<Rightarrow> string list" where
  "extractCitations text = uniq (pattern1_exec text @ pattern2_exec text)"

definition normalizeCitation :: "string \<Rightarrow> string" where
  "normalizeCitation c = trim (collapse_spaces (strip_punctuation (toLowerCase c)))"

text \<open>The callback of \<open>authorizedObjects.some\<close> and the test it is used for.\<close>

definition matches_object :: "string \<Rightarrow> BSetItem \<Rightarrow> bool" where
  "matches_object normalized obj =
     (let objName = normalizeCitation (or_empty (name obj));
          objCitation = normalizeCitation (or_empty (citation obj))
      in normalized = objName \<or> normalized = objCitation \<or>
         str_includes normalized objName \<or> str_includes objName normalized)"

definition isAuthorized :: "string \<Rightarrow> BSetItem list \<Rightarrow> bool" where
  "isAuthorized c authorizedObjects =
     list_ex (matches_object (normalizeCitation c)) authorizedObjects"

definition verifyCitations :: "string \<Rightarrow> BSetItem list \<Rightarrow> ValidationCheck" where
  "verifyCitations generatedText authorizedObjects =
     (let extractedCitations = extractCitations generatedText;
          unauthorizedCitations =
            filter (\<lambda>c. \<not> isAuthorized c authorizedObjects) extractedCitations
      in if length unauthorizedCitations > 0
         then \<lparr>check_type = citation_verification, status = FAIL,
               details = ''Found '' @ string_of_nat (length unauthorizedCitations) @
                 '' unauthorized citation(s): '' @ join '', '' unauthorizedCitations,
               failed_assertion = Some (unauthorizedCitations ! 0),
               best_match_similarity = None, threshold = None, missing_element = None\<rparr>
         else \<lparr>check_type = citation_verification, status = PASS,
               details = ''All '' @ string_of_nat (length extractedCitations) @
                 '' citations matched authorized objects'',
               failed_assertion = None,
               best_match_similarity = None, threshold = None, missing_element = None\<rparr>)"

subsection \<open>Rule-to-field mapping\<close>

definition normativeKeywords :: "string list" where
  "normativeKeywords = [''rule is'', ''court held'', ''standard requires'', ''test is'',
     ''must'', ''shall'', ''requires'', ''prohibits'', ''allows'', ''permits'']"

definition is_sentence_end :: "char \<Rightarrow> bool" where
  "is_sentence_end c = (c = CHR ''.'' \<or> c = CHR ''!'' \<or> c = CHR ''?'')"

definition is_normative :: "string \<Rightarrow> bool" where
  "is_normative sentence =
     list_ex (\<lambda>kw. str_includes (toLowerCase sentence) kw) normativeKeywords"

definition extractRuleStatements :: "string \<Rightarrow> string list" where
  "extractRuleStatements text =
     map trim (filter is_normative (split_runs is_sentence_end text))"

text \<open>\<open>const SIMILARITY_THRESHOLD = 0.65\<close>: the double that the literal denotes.\<close>

definition SIMILARITY_THRESHOLD :: real where
  "SIMILARITY_THRESHOLD = to_double (65 / 100)"

text \<open>\<open>obj.rule_of_law || obj.rule || obj.holding || ''\<close>: the first non-empty field.\<close>

definition authorizedRule :: "BSetItem \<Rightarrow> string" where
  "authorizedRule obj =
     (if or_empty (rule_of_law obj) \<noteq> [] then or_empty (rule_of_law obj)
      else if or_empty (rule obj) \<noteq> [] then or_empty (rule obj)
      else or_empty (holding obj))"

text \<open>The inner loop: \<open>maxSimilarity\<close> starts at 0 and skips an empty field.\<close>

definition maxSimilarity :: "string \<Rightarrow> BSetItem list \<Rightarrow> real" where
  "maxSimilarity rl authorizedObjects =
     fold (\<lambda>obj m. if authorizedRule obj = [] then m
                    else max m (computeSimilarity rl (authorizedRule obj)))
          authorizedObjects 0"

text \<open>The outer loop carries \<open>unmappedRules\<close> and \<open>lowestSimilarity\<close>.\<close>

definition rule_loop :: "string list \<Rightarrow> BSetItem list \<Rightarrow> string list \<times> real" where
  "rule_loop extractedRules authorizedObjects =
     fold (\<lambda>rl (unmappedRules, lowestSimilarity).
             if maxSimilarity rl authorizedObjects < SIMILARITY_THRESHOLD
             then (unmappedRules @ [rl],
                   min lowestSimilarity (maxSimilarity rl authorizedObjects))
             else (unmappedRules, lowestSimilarity))
          extractedRules ([], 1)"

definition verifyRuleMappings :: "string \<Rightarrow> BSetItem list \<Rightarrow> ValidationCheck" where
  "verifyRuleMappings generatedText authorizedObjects =
     (let extractedRules = extractRuleStatements generatedText
      in case rule_loop extractedRules authorizedObjects of
         (unmappedRules, lowestSimilarity) \<Rightarrow>
           if length unmappedRules > 0
           then \<lparr>check_type = rule_to_field_mapping, status = FAIL,
                 details = string_of_nat (length unmappedRules) @
                   '' rule statement(s) did not map to authorized rule fields'',
                 failed_assertion = Some (unmappedRules ! 0),
                 best_match_similarity = Some lowestSimilarity,
                 threshold = Some SIMILARITY_THRESHOLD, missing_element = None\<rparr>
           else \<lparr>check_type = rule_to_field_mapping, status = PASS,
                 details = ''All '' @ string_of_nat (length extractedRules) @
                   '' rule statements mapped to authorized fields'',
                 failed_assertion = None,
                 best_match_similarity = None, threshold = None, missing_element = None\<rparr>)"

subsection \<open>Constraint compliance\<close>

definition content_text :: "ConstraintObject \<Rightarrow> string" where
  "content_text c =
     (case content c of
        ContentString s \<Rightarrow> s
      | ContentSegments segs \<Rightarrow> join '' '' (map (\<lambda>seg. or_empty (seg_text seg)) segs))"

definition keywords_of :: "string \<Rightarrow> string list" where
  "keywords_of cont =
     filter (\<lambda>w. length w > 3) (split_runs is_space (blank_punctuation (toLowerCase cont)))"

definition element_missing :: "string \<Rightarrow> string \<Rightarrow> bool" where
  "element_missing generatedText cont =
     (let keywords = keywords_of cont;
          hasKeyword = list_ex (\<lambda>kw. str_includes (toLowerCase generatedText) kw) keywords
      in \<not> hasKeyword \<and> length keywords > 0)"

definition test_missing :: "string \<Rightarrow> string \<Rightarrow> bool" where
  "test_missing generatedText cont =
     (let keywords = keywords_of cont;
          mentionsTest = list_ex (\<lambda>kw. str_includes (toLowerCase generatedText) kw)
                           (take 3 keywords)
      in \<not> mentionsTest \<and> length keywords > 0)"

definition verifyConstraintCompliance :: "string \<Rightarrow> AuthorizedContext \<Rightarrow> ValidationCheck" where
  "verifyConstraintCompliance generatedText context =
     (let elementConstraints = filter is_element_factor (constraint_objects context);
          missingElements =
            filter (element_missing generatedText) (map content_text elementConstraints)
      in if length missingElements > 0
         then \<lparr>check_type = constraint_compliance, status = FAIL,
               details = string_of_nat (length missingElements) @
                 '' required element(s) not addressed'',
               failed_assertion = None, best_match_similarity = None, threshold = None,
               missing_element = Some (missingElements ! 0)\<rparr>
         else
           (let testConstraints = filter is_test_standard (constraint_objects context);
                missingTests =
                  filter (test_missing generatedText) (map content_text testConstraints)
            in if length missingTests > 0
               then \<lparr>check_type = constraint_compliance, status = WARNING,
                     details = string_of_nat (length missingTests) @
                       '' required test(s) may not be fully addressed'',
                     failed_assertion = None, best_match_similarity = None,
                     threshold = None, missing_element = None\<rparr>
               else \<lparr>check_type = constraint_compliance, status = PASS,
                     details = ''All required elements and tests appear to be addressed'',
                     failed_assertion = None, best_match_similarity = None,
                     threshold = None, missing_element = None\<rparr>))"

subsection \<open>Aggregation\<close>

definition isCriticalCheck :: "CheckType \<Rightarrow> bool" where
  "isCriticalCheck checkType = (checkType = citation_verification)"

definition validateGeneratedText :: "string \<Rightarrow> AuthorizedContext \<Rightarrow> ValidationResult" where
  "validateGeneratedText generatedText context =
     (let citationCheck = verifyCitations generatedText (reasoning_objects context);
          ruleCheck = verifyRuleMappings generatedText (reasoning_objects context);
          constraintCheck = verifyConstraintCompliance generatedText context;
          checks = [citationCheck, ruleCheck, constraintCheck];
          hasCriticalFailure =
            list_ex (\<lambda>c. status c = FAIL \<and> isCriticalCheck (check_type c)) checks;
          hasMajorFailure = list_ex (\<lambda>c. status c = FAIL) checks;
          hasWarning = list_ex (\<lambda>c. status c = WARNING) checks
      in \<lparr>overall_status = (if hasMajorFailure \<or> hasCriticalFailure then FAILED else PASSED),
          validation_checks = checks,
          severity = (if hasCriticalFailure then Some CRITICAL
                      else if hasMajorFailure then Some MAJOR
                      else if hasWarning then Some MINOR else None),
          recommended_action = (if hasCriticalFailure then Some REJECT
                      else if hasMajorFailure then Some REGENERATE
                      else if hasWarning then Some CORRECT else None)\<rparr>)"

section \<open>The route (app/api/generate/route.ts)\<close>



text \<open>
  The generation loop. The language model is an outside service: \<open>outputs n\<close> is the
  text that its \<open>n\<close>-th call of the request returns, whatever the instructions sent
  were, so the loop is modelled for every sequence of outputs and the number of calls is
  the final value of \<open>iterations\<close>. \<open>max_iterations\<close> is the number in the request, or
  \<open>MAX_ITERATIONS\<close> when the request has none. After \<open>status = 'flagged'\<close> on the last
  attempt the loop condition is tested once more and fails.
\<close>

datatype GenStatus = validated | corrected | flagged | rejected

record LoopState =
  iterations :: nat
  generatedText :: string
  validationReport :: "ValidationResult option"
  gen_status :: GenStatus

definition MAX_ITERATIONS :: int where
  "MAX_ITERATIONS = 3"

function generation_loop ::
  "(nat \<Rightarrow> string) \<Rightarrow> AuthorizedContext \<Rightarrow> int \<Rightarrow> LoopState \<Rightarrow> LoopState" where
  "generation_loop outputs context max_iterations st =
     (if int (iterations st) < max_iterations then
        (let n = iterations st + 1;
             report = validateGeneratedText (outputs n) context;
             st1 = st\<lparr>iterations := n, generatedText := outputs n,
                      validationReport := Some report\<rparr>
         in if overall_status report = PASSED then st1\<lparr>gen_status := validated\<rparr>
            else if severity report = Some CRITICAL then st1\<lparr>gen_status := rejected\<rparr>
            else if severity report = Some MINOR then st1\<lparr>gen_status := flagged\<rparr>
            else if int n < max_iterations
                 then generation_loop outputs context max_iterations st1
                 else generation_loop outputs context max_iterations
                        (st1\<lparr>gen_status := flagged\<rparr>))
      else st)"
  by pat_completeness auto
termination
  by (relation "measure (\<lambda>(outputs, context, max_iterations, st).
        nat (max_iterations - int (iterations st)))") auto

declare generation_loop.simps [simp del]

definition initial_state :: LoopState where
  "initial_state = \<lparr>iterations = 0, generatedText = [], validationReport = None,
     gen_status = rejected\<rparr>"

text \<open>
  \<open>max_iterations\<close> of the request body. The destructuring default
  \<open>max_iterations = MAX_ITERATIONS\<close> applies to an absent field only. For \<open>null\<close> the loop
  condition \<open>iterations < null\<close> compares with 0, so the loop makes no attempt.
\<close>

datatype MaxIterations = NotGiven | Null | Number int

definition run_generation ::
  "(nat \<Rightarrow> string) \<Rightarrow> AuthorizedContext \<Rightarrow> MaxIterations \<Rightarrow> LoopState" where
  "run_generation outputs context max_iterations =
     generation_loop outputs context
       (case max_iterations of NotGiven \<Rightarrow> MAX_ITERATIONS | Null \<Rightarrow> 0 | Number m \<Rightarrow> m)
       initial_state"

section \<open>Notions used to state the properties\<close>




subsection \<open>The rule statements that the rule-mapping loop reports\<close>

text \<open>The extracted rule statements whose best match is below the threshold.\<close>

definition unmapped :: "string \<Rightarrow> BSetItem list \<Rightarrow> string list" where
  "unmapped text objs =
     filter (\<lambda>r. maxSimilarity r objs < SIMILARITY_THRESHOLD) (extractRuleStatements text)"

section \<open>Example inputs\<close>

definition roe :: BSetItem where
  "roe = \<lparr>item_id = ''1'', name = Some ''Roe'', citation = Some ''410 U.S. 113 (1973)'',
     holding = None, rule_of_law = None, rule = None, item_notes = None,
     taxonomy_path = [''root'']\<rparr>"

definition unnamed_item :: BSetItem where
  "unnamed_item = \<lparr>item_id = ''2'', name = Some '' ... '', citation = None,
     holding = None, rule_of_law = None, rule = None, item_notes = None,
     taxonomy_path = [''root'']\<rparr>"

definition must_text :: string where
  "must_text = ''The court must act. It was fine''"

definition root_node :: TaxonomyNode where
  "root_node = \<lparr>node_id = ''root'', title = ''Fourth Amendment'', parent_id = None\<rparr>"

definition context_of :: "BSetItem list \<Rightarrow> ConstraintObject list \<Rightarrow> AuthorizedContext" where
  "context_of objs cs = \<lparr>reasoning_objects = objs, constraint_objects = cs,
     analytical_path = [''root''], target_node = root_node\<rparr>"


definition test_constraint :: "string \<Rightarrow> ConstraintObject" where
  "test_constraint s = \<lparr>constraint_path = [''root''], content = ContentString s,
     is_test_standard = True, is_element_factor = False\<rparr>"

definition element_constraint :: "string \<Rightarrow> ConstraintObject" where
  "element_constraint s = \<lparr>constraint_path = [''root''], content = ContentString s,
     is_test_standard = False, is_element_factor = True\<rparr>"

definition stop_context :: AuthorizedContext where
  "stop_context = context_of [roe]
     [element_constraint ''Reasonable suspicion'', test_constraint ''Terry stop analysis'']"

definition warn_context :: AuthorizedContext where
  "warn_context = context_of [roe] [test_constraint ''Probable cause'']"






definition item_at :: "string \<Rightarrow> string list \<Rightarrow> BSetItem" where
  "item_at n p = \<lparr>item_id = n, name = Some n, citation = None, holding = None,
     rule_of_law = None, rule = None, item_notes = None, taxonomy_path = p\<rparr>"





section \<open>Properties of the double arithmetic\<close>

text \<open>
  How a rounding is computed: a real within half a unit in the last place of a multiple
  of that unit rounds to it, and an integer below \<open>2^53\<close> is a double.
\<close>

lemma round_half_even_eqI:
  assumes "\<bar>y - of_int m\<bar> < 1 / 2"
  shows "round_half_even y = m"
proof -
  from assms have lo: "of_int m - 1 / 2 < y" and hi: "y < of_int m + 1 / 2"
    by linarith+
  show ?thesis
  proof (cases "of_int m \<le> y")
    case True
    with hi have "\<lfloor>y\<rfloor> = m"
      by (intro floor_unique) simp_all
    with hi show ?thesis
      by (simp add: round_half_even_def)
  next
    case False
    with lo have f: "\<lfloor>y\<rfloor> = m - 1"
      by (intro floor_unique) simp_all
    with lo have "y - of_int \<lfloor>y\<rfloor> > 1 / 2"
      by simp
    with f show ?thesis
      by (simp add: round_half_even_def)
  qed
qed

lemma binade_eqI:
  assumes "2 powr of_int k \<le> \<bar>x\<bar>" and "\<bar>x\<bar> < 2 powr of_int (k + 1)"
  shows "binade x = k"
proof -
  have pos: "0 < \<bar>x\<bar>"
    using assms(1) by (smt (verit) powr_gt_zero)
  from assms(1) pos have "of_int k \<le> log 2 \<bar>x\<bar>"
    by (simp add: le_log_iff)
  moreover from assms(2) pos have "log 2 \<bar>x\<bar> < of_int (k + 1)"
    by (simp add: log_less_iff)
  ultimately show ?thesis
    unfolding binade_def by (intro floor_unique) simp_all
qed

lemma to_double_eqI:
  assumes "2 powr of_int (e + 52) \<le> \<bar>x\<bar>" and "\<bar>x\<bar> < 2 powr of_int (e + 53)"
    and "\<bar>x / 2 powr of_int e - of_int m\<bar> < 1 / 2"
  shows "to_double x = of_int m * 2 powr of_int e"
proof -
  have b: "binade x = e + 52"
    using assms(1,2) by (intro binade_eqI) (simp_all add: add.commute add.left_commute)
  have "x \<noteq> 0"
    using assms(1) by (smt (verit) powr_gt_zero)
  with b assms(3) show ?thesis
    by (simp add: to_double_def round_half_even_eqI)
qed

lemma to_double_down:
  fixes n :: nat
  assumes "2 ^ 52 \<le> \<bar>x\<bar> * 2 ^ n" and "\<bar>x\<bar> * 2 ^ n < 2 ^ 53"
    and "\<bar>x * 2 ^ n - of_int m\<bar> < 1 / 2"
  shows "to_double x = of_int m / 2 ^ n"
proof -
  have p: "2 powr of_int (- int n) = 1 / (2::real) ^ n"
    by (simp add: powr_minus powr_realpow divide_inverse)
  have p2: "2 powr (- real n) = 1 / (2::real) ^ n"
    by (simp add: powr_minus powr_realpow divide_inverse)
  have q: "2 powr of_int (- int n + k) = 2 ^ nat k / (2::real) ^ n" if "0 \<le> k" for k
  proof -
    have "real_of_int (- int n + k) = real (nat k) + (- real n)"
      using that by simp
    then have "2 powr of_int (- int n + k) = 2 powr real (nat k) * 2 powr (- real n)"
      by (simp only: powr_add)
    also have "\<dots> = 2 ^ nat k / (2::real) ^ n"
      by (simp add: powr_realpow powr_minus divide_inverse)
    finally show ?thesis .
  qed
  have "to_double x = of_int m * 2 powr of_int (- int n)"
  proof (rule to_double_eqI)
    have "2 powr of_int (- int n + 52) = 2 ^ 52 / (2::real) ^ n"
      using q [of 52] by simp
    then show "2 powr of_int (- int n + 52) \<le> \<bar>x\<bar>"
      using assms(1) by (simp only: pos_divide_le_eq zero_less_power zero_less_numeral)
    have "2 powr of_int (- int n + 53) = 2 ^ 53 / (2::real) ^ n"
      using q [of 53] by simp
    then show "\<bar>x\<bar> < 2 powr of_int (- int n + 53)"
      using assms(2) by (simp only: pos_less_divide_eq zero_less_power zero_less_numeral)
    show "\<bar>x / 2 powr of_int (- int n) - of_int m\<bar> < 1 / 2"
      using assms(3) by (simp add: p2)
  qed
  then show ?thesis
    by (simp add: p2)
qed

lemma round_half_even_of_int: "round_half_even (of_int i) = i"
  by (rule round_half_even_eqI) simp

lemma to_double_of_int:
  assumes "\<bar>z\<bar> < 2 ^ 53"
  shows "to_double (of_int z) = of_int z"
proof (cases "z = 0")
  case True
  then show ?thesis by (simp add: to_double_def)
next
  case False
  define k where "k = binade (of_int z)"
  have z1: "1 \<le> \<bar>real_of_int z\<bar>"
    using False by (simp flip: of_int_abs)
  then have "0 \<le> log 2 \<bar>real_of_int z\<bar>"
    by simp
  then have k0: "0 \<le> k"
    by (simp add: k_def binade_def)
  have "\<bar>real_of_int z\<bar> < 2 ^ 53"
    using assms by (metis of_int_abs of_int_less_numeral_power_cancel_iff)
  then have "log 2 \<bar>real_of_int z\<bar> < 53"
    using z1 by (simp add: log_less_iff powr_realpow flip: powr_realpow)
  then have k52: "k \<le> 52"
    unfolding k_def binade_def by linarith
  define j where "j = nat (52 - k)"
  have e: "2 powr (real_of_int k - 52) = 1 / (2::real) ^ j"
  proof -
    have "real_of_int k - 52 = - real j"
      using k52 by (simp add: j_def)
    then show ?thesis
      by (simp add: powr_minus powr_realpow divide_inverse)
  qed
  have "real_of_int z / 2 powr (real_of_int k - 52) = of_int (z * 2 ^ j)"
    by (simp add: e)
  then have "round_half_even (real_of_int z / 2 powr (real_of_int k - 52)) = z * 2 ^ j"
    by (simp only: round_half_even_of_int)
  with False show ?thesis
    by (simp add: to_double_def e flip: k_def)
qed

lemma to_double_numeral [simp]:
  "numeral n < (2::int) ^ 53 \<Longrightarrow> to_double (numeral n) = numeral n"
  using to_double_of_int [of "numeral n"] by simp

lemma to_double_0 [simp]: "to_double 0 = 0"
  by (simp add: to_double_def)

lemma to_double_1 [simp]: "to_double 1 = 1"
  using to_double_of_int [of 1] by simp

lemma to_double_between:
  fixes n :: nat and m :: int
  assumes "2 ^ 52 < m" and "m < 2 ^ 53"
    and "(of_int m - 1 / 2) / 2 ^ n < x" and "x < (of_int m + 1 / 2) / 2 ^ n"
  shows "to_double x = of_int m / 2 ^ n"
proof (rule to_double_down)
  from assms(3) have lo: "of_int m - 1 / 2 < x * 2 ^ n"
    by (simp add: pos_divide_less_eq)
  from assms(4) have hi: "x * 2 ^ n < of_int m + 1 / 2"
    by (simp add: pos_less_divide_eq)
  from assms(1) have "(2::int) ^ 52 + 1 \<le> m"
    by simp
  then have "real_of_int (2 ^ 52 + 1) \<le> of_int m"
    by (simp only: of_int_le_iff)
  then have "(2::real) ^ 52 + 1 \<le> of_int m"
    by simp
  with lo have x52: "2 ^ 52 < x * 2 ^ n"
    by linarith
  then have "0 < x * 2 ^ n"
    by (smt (verit) zero_less_power)
  then have xpos: "0 < x"
    by (simp add: zero_less_mult_iff)
  from assms(2) have "m + 1 \<le> (2::int) ^ 53"
    by simp
  then have "real_of_int (m + 1) \<le> of_int (2 ^ 53)"
    by (simp only: of_int_le_iff)
  then have "of_int m + 1 \<le> (2::real) ^ 53"
    by simp
  with hi have x53: "x * 2 ^ n < 2 ^ 53"
    by linarith
  from x52 xpos show "2 ^ 52 \<le> \<bar>x\<bar> * 2 ^ n"
    by simp
  from x53 xpos show "\<bar>x\<bar> * 2 ^ n < 2 ^ 53"
    by simp
  from lo hi show "\<bar>x * 2 ^ n - of_int m\<bar> < 1 / 2"
    by linarith
qed

lemma to_double_threshold: "to_double (65 / 100) = 5854679515581645 / 2 ^ 53"
  using to_double_between [of 5854679515581645 53 "65 / 100"] by simp

lemma sqrt2_double: "to_double (sqrt 2) = 6369051672525773 / 2 ^ 52"
proof -
  have "(6369051672525773 - 1 / 2) / 2 ^ 52 < sqrt 2"
    by (rule real_less_rsqrt) (simp add: power2_eq_square)
  moreover have "sqrt 2 < (6369051672525773 + 1 / 2) / 2 ^ 52"
    by (rule real_less_lsqrt) (simp_all add: power2_eq_square)
  ultimately show ?thesis
    using to_double_between [of 6369051672525773 52 "sqrt 2"] by simp
qed

lemma sqrt2_double_fixed:
  "to_double (6369051672525773 / 2 ^ 52) = 6369051672525773 / 2 ^ 52"
  using to_double_between [of 6369051672525773 52 "6369051672525773 / 2 ^ 52"] by simp




lemma inverse_double:
  "to_double (1 / (6369051672525773 / 2 ^ 52)) = 6369051672525772 / 2 ^ 53"
  using to_double_between [of 6369051672525772 53 "1 / (6369051672525773 / 2 ^ 52)"] by simp


section \<open>Properties of the retrieval\<close>

lemma every_indexed_nth:
  "every_indexed f xs \<longleftrightarrow> (\<forall>i < length xs. f (xs ! i) i)"
  by (simp add: every_indexed_def list_all_length)

lemma pathsMatch_iff: "pathsMatch p q \<longleftrightarrow> p = q"
  by (auto simp: pathsMatch_def every_indexed_nth list_eq_iff_nth_eq)

lemma isAnalyticalPathPrefixOfItem_iff:
  "isAnalyticalPathPrefixOfItem p q \<longleftrightarrow> prefix p q"
proof
  assume h: "isAnalyticalPathPrefixOfItem p q"
  then have len: "length p \<le> length q"
    by (auto simp: isAnalyticalPathPrefixOfItem_def split: if_splits)
  from h have "\<forall>i < length p. p ! i = q ! i"
    by (auto simp: isAnalyticalPathPrefixOfItem_def every_indexed_nth split: if_splits)
  with len have "p = take (length p) q"
    by (simp add: list_eq_iff_nth_eq)
  then show "prefix p q"
    by (metis take_is_prefix)
next
  assume "prefix p q"
  then obtain r where "q = p @ r"
    by (auto simp: prefix_def)
  then show "isAnalyticalPathPrefixOfItem p q"
    by (simp add: isAnalyticalPathPrefixOfItem_def every_indexed_nth nth_append)
qed

lemma retrieve_loop_filter:
  "retrieve_loop p items ex inh =
     (ex @ filter (\<lambda>i. taxonomy_path i = p) items,
      inh @ filter (\<lambda>i. taxonomy_path i \<noteq> p \<and> prefix p (taxonomy_path i)) items)"
  by (induction items arbitrary: ex inh)
     (simp_all add: pathsMatch_iff isAnalyticalPathPrefixOfItem_iff)

text \<open>
  Claim C2. For every path \<open>p\<close> and item list, \<open>retrieveReasoningObjects\<close> returns the
  items whose \<open>taxonomy_path\<close> equals \<open>p\<close>, in source order, followed by the items whose
  path properly extends \<open>p\<close>, in source order; the items it returns are exactly the
  items of the input whose path has \<open>p\<close> as a prefix, so no item with an unrelated path
  is returned.
\<close>

theorem retrieveReasoningObjects_exact_then_inherited:
  "retrieveReasoningObjects p items =
     filter (\<lambda>i. taxonomy_path i = p) items @
     filter (\<lambda>i. strict_prefix p (taxonomy_path i)) items
   \<and> set (retrieveReasoningObjects p items) =
     {i. i \<in> set items \<and> prefix p (taxonomy_path i)}"
proof -
  have sp: "\<And>i. strict_prefix p (taxonomy_path i) \<longleftrightarrow>
      taxonomy_path i \<noteq> p \<and> prefix p (taxonomy_path i)"
    by (auto simp: strict_prefix_def)
  have eq: "retrieveReasoningObjects p items =
     filter (\<lambda>i. taxonomy_path i = p) items @
     filter (\<lambda>i. strict_prefix p (taxonomy_path i)) items"
    by (simp add: retrieveReasoningObjects_def retrieve_loop_filter sp)
  have "set (retrieveReasoningObjects p items) =
     {i. i \<in> set items \<and> prefix p (taxonomy_path i)}"
    unfolding eq by (auto simp: strict_prefix_def)
  with eq show ?thesis by simp
qed

theorem retrieveReasoningObjects_exact_then_inherited_witness:
  "retrieveReasoningObjects [''root'']
     [item_at ''a'' [''root'', ''search''], item_at ''b'' [''other''],
      item_at ''c'' [''root''], item_at ''d'' [''root'', ''seizure'']]
   = [item_at ''c'' [''root''], item_at ''a'' [''root'', ''search''],
      item_at ''d'' [''root'', ''seizure'']]"
  using retrieveReasoningObjects_exact_then_inherited [of "[''root'']"
     "[item_at ''a'' [''root'', ''search''], item_at ''b'' [''other''],
       item_at ''c'' [''root''], item_at ''d'' [''root'', ''seizure'']]"]
  by (simp add: item_at_def strict_prefix_def)


section \<open>Properties of the citation check\<close>

lemma str_includes_iff: "str_includes s sub \<longleftrightarrow> sublist sub s"
  by (induction s) (simp_all add: sublist_Cons_right)

lemma matches_object_iff:
  "matches_object n obj \<longleftrightarrow>
     n = normalizeCitation (or_empty (name obj)) \<or>
     n = normalizeCitation (or_empty (citation obj)) \<or>
     sublist (normalizeCitation (or_empty (name obj))) n \<or>
     sublist n (normalizeCitation (or_empty (name obj)))"
  by (simp add: matches_object_def Let_def str_includes_iff)

lemma verifyCitations_status:
  "status (verifyCitations text objs) =
     (if list_ex (\<lambda>c. \<not> isAuthorized c objs) (extractCitations text) then FAIL else PASS)"
  by (simp add: verifyCitations_def Let_def list_ex_iff filter_empty_conv)

text \<open>
  What the citation check computes. A citation is authorized exactly when, for some
  authorized item, its normalized form equals the normalized name or the normalized
  citation of the item, or contains the normalized name, or is contained in the
  normalized name; the check has status FAIL exactly when some extracted citation is not
  authorized.
\<close>

lemma verifyCitations_status_iff:
  "status (verifyCitations text objs) =
     (if \<exists>c \<in> set (extractCitations text). \<not> isAuthorized c objs then FAIL else PASS)
   \<and> (isAuthorized c objs \<longleftrightarrow>
        (\<exists>obj \<in> set objs.
           normalizeCitation c = normalizeCitation (or_empty (name obj)) \<or>
           normalizeCitation c = normalizeCitation (or_empty (citation obj)) \<or>
           sublist (normalizeCitation (or_empty (name obj))) (normalizeCitation c) \<or>
           sublist (normalizeCitation c) (normalizeCitation (or_empty (name obj)))))
   \<and> extractCitations text = uniq (pattern1_exec text @ pattern2_exec text)
   \<and> normalizeCitation c = trim (collapse_spaces (strip_punctuation (toLowerCase c)))"
  by (simp add: verifyCitations_status list_ex_iff isAuthorized_def matches_object_iff
      extractCitations_def normalizeCitation_def)

text \<open>
  Claim C1 at a concrete text. The claim holds a citation authorized when its normalized
  form is contained in the normalized citation field of an authorized item. The code
  applies \<open>includes\<close> to the name field in both directions and compares the citation
  field by \<open>===\<close> only. Pattern 2 extracts the reporter citation \<open>410 U.S. 113\<close> and never
  the year after it, so against the item whose citation field is \<open>410 U.S. 113 (1973)\<close>
  the check fails, also for a text that quotes that field in full.
\<close>

theorem verifyCitations_rejects_contained_citation:
  "extractCitations ''See 410 U.S. 113.'' = [''410 U.S. 113'']
   \<and> citation roe = Some ''410 U.S. 113 (1973)''
   \<and> sublist (normalizeCitation ''410 U.S. 113'') (normalizeCitation ''410 U.S. 113 (1973)'')
   \<and> status (verifyCitations ''See 410 U.S. 113.'' [roe]) = FAIL
   \<and> extractCitations ''Roe, 410 U.S. 113 (1973)'' = [''410 U.S. 113'']
   \<and> status (verifyCitations ''Roe, 410 U.S. 113 (1973)'' [roe]) = FAIL"
  by code_simp

theorem verifyCitations_rejects_contained_citation_not_pass:
  "status (verifyCitations ''See 410 U.S. 113.'' [roe]) \<noteq> PASS
   \<and> status (verifyCitations ''Roe, 410 U.S. 113 (1973)'' [roe]) \<noteq> PASS"
  using verifyCitations_rejects_contained_citation by simp

text \<open>
  Claim C9. When some authorized item has a name that normalizes to the empty string,
  every extracted citation is authorized and the citation check returns PASS, whatever
  the generated text cites.
\<close>

theorem verifyCitations_passes_with_empty_name:
  assumes "\<exists>obj \<in> set objs. normalizeCitation (or_empty (name obj)) = []"
  shows "status (verifyCitations text objs) = PASS
    \<and> (\<forall>c \<in> set (extractCitations text). isAuthorized c objs)"
proof -
  from assms obtain obj where obj: "obj \<in> set objs"
    and e: "normalizeCitation (or_empty (name obj)) = []"
    by blast
  have "matches_object n obj" for n
    by (simp add: matches_object_iff e)
  with obj have "isAuthorized c objs" for c
    by (auto simp: isAuthorized_def list_ex_iff)
  then show ?thesis
    by (simp add: verifyCitations_status list_ex_iff)
qed

theorem verifyCitations_passes_with_empty_name_witness:
  "normalizeCitation (or_empty (name unnamed_item)) = []
   \<and> extractCitations ''Smith v. Jones, 410 U.S. 113'' = [''Smith v. Jones'', ''410 U.S. 113'']
   \<and> status (verifyCitations ''Smith v. Jones, 410 U.S. 113'' [roe, unnamed_item]) = PASS"
proof -
  have h: "\<exists>obj \<in> set [roe, unnamed_item]. normalizeCitation (or_empty (name obj)) = []"
    by code_simp
  have "extractCitations ''Smith v. Jones, 410 U.S. 113'' = [''Smith v. Jones'', ''410 U.S. 113'']"
    by code_simp
  moreover have "normalizeCitation (or_empty (name unnamed_item)) = []"
    by code_simp
  ultimately show ?thesis
    using verifyCitations_passes_with_empty_name [OF h, of "''Smith v. Jones, 410 U.S. 113''"]
    by simp
qed

section \<open>Properties of the aggregation\<close>

lemma check_types:
  "check_type (verifyCitations t objs) = citation_verification"
  "check_type (verifyRuleMappings t objs) = rule_to_field_mapping"
  "check_type (verifyConstraintCompliance t ctx) = constraint_compliance"
  by (simp_all add: verifyCitations_def verifyRuleMappings_def verifyConstraintCompliance_def
      Let_def split: prod.splits)

lemma validateGeneratedText_report:
  "severity (validateGeneratedText text ctx) =
     (if status (verifyCitations text (reasoning_objects ctx)) = FAIL then Some CRITICAL
      else if status (verifyRuleMappings text (reasoning_objects ctx)) = FAIL
            \<or> status (verifyConstraintCompliance text ctx) = FAIL then Some MAJOR
      else if status (verifyCitations text (reasoning_objects ctx)) = WARNING
            \<or> status (verifyRuleMappings text (reasoning_objects ctx)) = WARNING
            \<or> status (verifyConstraintCompliance text ctx) = WARNING then Some MINOR
      else None)
   \<and> overall_status (validateGeneratedText text ctx) =
     (if status (verifyCitations text (reasoning_objects ctx)) = FAIL
         \<or> status (verifyRuleMappings text (reasoning_objects ctx)) = FAIL
         \<or> status (verifyConstraintCompliance text ctx) = FAIL then FAILED else PASSED)"
  by (simp add: validateGeneratedText_def Let_def isCriticalCheck_def check_types)

text \<open>
  Claim C3. The report of \<open>validateGeneratedText\<close> holds the three checks in order. Its
  severity and action are CRITICAL and REJECT when the citation check failed, else MAJOR
  and REGENERATE when another check failed, else MINOR and CORRECT when a check gave a
  warning, else unset; its overall status is FAILED when some check has status FAIL and
  PASSED otherwise, so a warning alone leaves it PASSED.
\<close>

theorem validateGeneratedText_aggregation:
  "severity (validateGeneratedText text ctx) =
     (if status (verifyCitations text (reasoning_objects ctx)) = FAIL then Some CRITICAL
      else if status (verifyRuleMappings text (reasoning_objects ctx)) = FAIL
            \<or> status (verifyConstraintCompliance text ctx) = FAIL then Some MAJOR
      else if status (verifyCitations text (reasoning_objects ctx)) = WARNING
            \<or> status (verifyRuleMappings text (reasoning_objects ctx)) = WARNING
            \<or> status (verifyConstraintCompliance text ctx) = WARNING then Some MINOR
      else None)
   \<and> recommended_action (validateGeneratedText text ctx) =
     (if status (verifyCitations text (reasoning_objects ctx)) = FAIL then Some REJECT
      else if status (verifyRuleMappings text (reasoning_objects ctx)) = FAIL
            \<or> status (verifyConstraintCompliance text ctx) = FAIL then Some REGENERATE
      else if status (verifyCitations text (reasoning_objects ctx)) = WARNING
            \<or> status (verifyRuleMappings text (reasoning_objects ctx)) = WARNING
            \<or> status (verifyConstraintCompliance text ctx) = WARNING then Some CORRECT
      else None)
   \<and> validation_checks (validateGeneratedText text ctx) =
       [verifyCitations text (reasoning_objects ctx),
        verifyRuleMappings text (reasoning_objects ctx),
        verifyConstraintCompliance text ctx]
   \<and> overall_status (validateGeneratedText text ctx) =
       (if \<exists>c \<in> set (validation_checks (validateGeneratedText text ctx)). status c = FAIL
        then FAILED else PASSED)"
  by (simp add: validateGeneratedText_def Let_def isCriticalCheck_def check_types)

theorem validateGeneratedText_aggregation_witness:
  "severity (validateGeneratedText ''Smith v. Jones'' (context_of [roe] [])) = Some CRITICAL
   \<and> recommended_action (validateGeneratedText ''Smith v. Jones'' (context_of [roe] []))
       = Some REJECT
   \<and> overall_status (validateGeneratedText ''Smith v. Jones'' (context_of [roe] [])) = FAILED"
proof -
  have f: "status (verifyCitations ''Smith v. Jones'' [roe]) = FAIL"
    by code_simp
  have r: "reasoning_objects (context_of [roe] []) = [roe]"
    by (simp add: context_of_def)
  from validateGeneratedText_aggregation [of "''Smith v. Jones''" "context_of [roe] []"]
  show ?thesis
    by (simp add: f r)
qed

section \<open>Properties of the rule-mapping check\<close>




lemma rule_loop_fold:
  "fold (\<lambda>rl (unmappedRules, lowestSimilarity).
             if maxSimilarity rl objs < SIMILARITY_THRESHOLD
             then (unmappedRules @ [rl], min lowestSimilarity (maxSimilarity rl objs))
             else (unmappedRules, lowestSimilarity)) rules (u, l) =
   (u @ filter (\<lambda>r. maxSimilarity r objs < SIMILARITY_THRESHOLD) rules,
    fold min (map (\<lambda>r. maxSimilarity r objs)
       (filter (\<lambda>r. maxSimilarity r objs < SIMILARITY_THRESHOLD) rules)) l)"
  by (induction rules arbitrary: u l) (simp_all add: min.commute)

lemma fold_min_Min:
  assumes "ms \<noteq> []" and "\<forall>m \<in> set ms. m \<le> (l::real)"
  shows "fold min ms l = Min (set ms)"
proof -
  have "fold min ms l = Min (set (l # ms))"
    by (simp only: Min.set_eq_fold)
  also have "\<dots> = min l (Min (set ms))"
    using assms(1) by (simp add: Min_insert)
  also have "\<dots> = Min (set ms)"
  proof -
    have "Min (set ms) \<in> set ms"
      using assms(1) by simp
    with assms(2) have "Min (set ms) \<le> l"
      by blast
    then show ?thesis
      by (simp add: min_absorb2)
  qed
  finally show ?thesis .
qed

lemma SIMILARITY_THRESHOLD_le_1: "SIMILARITY_THRESHOLD \<le> 1"
  unfolding SIMILARITY_THRESHOLD_def to_double_threshold by simp

lemma SIMILARITY_THRESHOLD_pos: "0 < SIMILARITY_THRESHOLD"
  unfolding SIMILARITY_THRESHOLD_def to_double_threshold by simp

lemma verifyRuleMappings_status:
  "status (verifyRuleMappings text objs) = (if unmapped text objs \<noteq> [] then FAIL else PASS)"
  by (simp add: verifyRuleMappings_def rule_loop_def rule_loop_fold Let_def unmapped_def)

lemma verifyRuleMappings_report:
  assumes "unmapped text objs \<noteq> []"
  shows "failed_assertion (verifyRuleMappings text objs) = Some (hd (unmapped text objs))"
    and "threshold (verifyRuleMappings text objs) = Some SIMILARITY_THRESHOLD"
    and "best_match_similarity (verifyRuleMappings text objs) =
           Some (Min ((\<lambda>r. maxSimilarity r objs) ` set (unmapped text objs)))"
proof -
  let ?ms = "map (\<lambda>r. maxSimilarity r objs) (unmapped text objs)"
  have ne: "?ms \<noteq> []" using assms by simp
  have "\<forall>m \<in> set ?ms. m \<le> 1"
    using SIMILARITY_THRESHOLD_le_1 by (auto simp: unmapped_def)
  with ne have m: "fold min ?ms 1 = Min (set ?ms)"
    by (rule fold_min_Min)
  show "failed_assertion (verifyRuleMappings text objs) = Some (hd (unmapped text objs))"
    using assms
    by (simp add: verifyRuleMappings_def rule_loop_def rule_loop_fold Let_def unmapped_def
        hd_conv_nth)
  show "threshold (verifyRuleMappings text objs) = Some SIMILARITY_THRESHOLD"
    using assms
    by (simp add: verifyRuleMappings_def rule_loop_def rule_loop_fold Let_def unmapped_def)
  have "best_match_similarity (verifyRuleMappings text objs) = Some (fold min ?ms 1)"
    using assms
    by (simp add: verifyRuleMappings_def rule_loop_def rule_loop_fold Let_def unmapped_def)
  with m show "best_match_similarity (verifyRuleMappings text objs) =
           Some (Min ((\<lambda>r. maxSimilarity r objs) ` set (unmapped text objs)))"
    by simp
qed

lemma is_normative_iff:
  "is_normative s \<longleftrightarrow> (\<exists>kw \<in> set normativeKeywords. sublist kw (toLowerCase s))"
  by (simp add: is_normative_def list_ex_iff str_includes_iff)





lemma maxSimilarity_no_rules:
  assumes "\<forall>obj \<in> set objs. authorizedRule obj = []"
  shows "maxSimilarity r objs = 0"
proof -
  have "fold (\<lambda>obj m. if authorizedRule obj = [] then m
                  else max m (computeSimilarity r (authorizedRule obj))) objs m0 = m0" for m0
    using assms by (induction objs arbitrary: m0) simp_all
  then show ?thesis
    by (simp add: maxSimilarity_def)
qed




text \<open>
  Claim C10. When no authorized item has a non-empty \<open>rule_of_law\<close>, \<open>rule\<close> or
  \<open>holding\<close> field and the text has a sentence with a normative keyword, the
  rule-mapping check returns FAIL with best match 0 and the double 0.65 as threshold: every rule
  statement has best match 0.
\<close>

theorem verifyRuleMappings_fails_without_rule_fields:
  assumes "\<forall>obj \<in> set objs. or_empty (rule_of_law obj) = [] \<and> or_empty (rule obj) = []
             \<and> or_empty (holding obj) = []"
    and "\<exists>s \<in> set (split_runs is_sentence_end text).
           \<exists>kw \<in> set normativeKeywords. sublist kw (toLowerCase s)"
  shows "status (verifyRuleMappings text objs) = FAIL
    \<and> best_match_similarity (verifyRuleMappings text objs) = Some 0
    \<and> threshold (verifyRuleMappings text objs) = Some (to_double (65 / 100))
    \<and> (\<forall>r \<in> set (extractRuleStatements text). maxSimilarity r objs = 0)"
proof -
  from assms(1) have "\<forall>obj \<in> set objs. authorizedRule obj = []"
    by (simp add: authorizedRule_def)
  then have m: "maxSimilarity r objs = 0" for r
    by (rule maxSimilarity_no_rules)
  from assms(2) have ne: "extractRuleStatements text \<noteq> []"
    by (simp add: extractRuleStatements_def is_normative_iff filter_empty_conv)
  then have u: "unmapped text objs = extractRuleStatements text"
    using SIMILARITY_THRESHOLD_pos by (simp add: unmapped_def m)
  with ne have n: "unmapped text objs \<noteq> []"
    by simp
  from ne have i: "(\<lambda>r. 0::real) ` set (extractRuleStatements text) = {0}"
    by (cases "extractRuleStatements text") auto
  from verifyRuleMappings_report [OF n] show ?thesis
    by (simp add: verifyRuleMappings_status u m i ne SIMILARITY_THRESHOLD_def)
qed

theorem verifyRuleMappings_fails_without_rule_fields_witness:
  "status (verifyRuleMappings must_text [roe]) = FAIL
    \<and> best_match_similarity (verifyRuleMappings must_text [roe]) = Some 0
    \<and> threshold (verifyRuleMappings must_text [roe]) = Some (to_double (65 / 100))"
proof -
  have a: "\<forall>obj \<in> set [roe]. or_empty (rule_of_law obj) = [] \<and> or_empty (rule obj) = []
             \<and> or_empty (holding obj) = []"
    by (simp add: roe_def or_empty_def)
  have b: "\<exists>s \<in> set (split_runs is_sentence_end must_text).
           \<exists>kw \<in> set normativeKeywords. sublist kw (toLowerCase s)"
    by code_simp
  from verifyRuleMappings_fails_without_rule_fields [OF a b] show ?thesis
    by simp
qed



section \<open>Properties of the constraint-compliance check\<close>

lemma element_missing_iff:
  "element_missing t cont \<longleftrightarrow>
     keywords_of cont \<noteq> [] \<and> \<not> (\<exists>kw \<in> set (keywords_of cont). sublist kw (toLowerCase t))"
  by (auto simp: element_missing_def Let_def list_ex_iff str_includes_iff)

lemma test_missing_iff:
  "test_missing t cont \<longleftrightarrow>
     keywords_of cont \<noteq> [] \<and>
     \<not> (\<exists>kw \<in> set (take 3 (keywords_of cont)). sublist kw (toLowerCase t))"
  by (auto simp: test_missing_def Let_def list_ex_iff str_includes_iff)

lemma filter_map_nonempty:
  "filter P (map f (filter Q xs)) \<noteq> [] \<longleftrightarrow> (\<exists>x \<in> set xs. Q x \<and> P (f x))"
  by (auto simp: filter_empty_conv)

lemma verifyConstraintCompliance_status:
  "status (verifyConstraintCompliance t ctx) =
     (if \<exists>c \<in> set (constraint_objects ctx). is_element_factor c
            \<and> element_missing t (content_text c) then FAIL
      else if \<exists>c \<in> set (constraint_objects ctx). is_test_standard c
            \<and> test_missing t (content_text c) then WARNING
      else PASS)"
  by (simp add: verifyConstraintCompliance_def Let_def filter_map_nonempty
      del: filter_map)

text \<open>
  Claim C7, as amended. The constraint-compliance check has status FAIL exactly when some
  required-element constraint has at least one content word longer than 3 characters
  and none of those words occurs in the lower-cased text; it then reports the content of
  the first such constraint. Otherwise it has status WARNING when some required-test
  constraint has at least one such word and none of its first three occurs in the
  lower-cased text, and PASS otherwise. The content words are the pieces, longer than 3
  characters, of the lower-cased content with every character outside \<open>\w\<close> and \<open>\s\<close>
  replaced by a space.
\<close>

theorem verifyConstraintCompliance_status_cases:
  "status (verifyConstraintCompliance text ctx) =
     (if \<exists>c \<in> set (constraint_objects ctx). is_element_factor c
            \<and> keywords_of (content_text c) \<noteq> []
            \<and> \<not> (\<exists>kw \<in> set (keywords_of (content_text c)). sublist kw (toLowerCase text))
      then FAIL
      else if \<exists>c \<in> set (constraint_objects ctx). is_test_standard c
            \<and> keywords_of (content_text c) \<noteq> []
            \<and> \<not> (\<exists>kw \<in> set (take 3 (keywords_of (content_text c))).
                    sublist kw (toLowerCase text))
      then WARNING
      else PASS)
   \<and> (status (verifyConstraintCompliance text ctx) = FAIL \<longrightarrow>
        missing_element (verifyConstraintCompliance text ctx) =
          Some (content_text (hd (filter (\<lambda>c. is_element_factor c
            \<and> keywords_of (content_text c) \<noteq> []
            \<and> \<not> (\<exists>kw \<in> set (keywords_of (content_text c)). sublist kw (toLowerCase text)))
            (constraint_objects ctx)))))
   \<and> keywords_of cont =
       filter (\<lambda>w. length w > 3) (split_runs is_space (blank_punctuation (toLowerCase cont)))"
proof -
  let ?E = "\<lambda>c. is_element_factor c \<and> keywords_of (content_text c) \<noteq> []
            \<and> \<not> (\<exists>kw \<in> set (keywords_of (content_text c)). sublist kw (toLowerCase text))"
  have 1: "status (verifyConstraintCompliance text ctx) =
     (if \<exists>c \<in> set (constraint_objects ctx). is_element_factor c
            \<and> keywords_of (content_text c) \<noteq> []
            \<and> \<not> (\<exists>kw \<in> set (keywords_of (content_text c)). sublist kw (toLowerCase text))
      then FAIL
      else if \<exists>c \<in> set (constraint_objects ctx). is_test_standard c
            \<and> keywords_of (content_text c) \<noteq> []
            \<and> \<not> (\<exists>kw \<in> set (take 3 (keywords_of (content_text c))).
                    sublist kw (toLowerCase text))
      then WARNING
      else PASS)"
    by (simp only: verifyConstraintCompliance_status element_missing_iff test_missing_iff)
  have m: "filter (element_missing text) (map content_text (filter is_element_factor cs)) =
      map content_text (filter ?E cs)" for cs
    by (induction cs) (simp_all add: element_missing_iff)
  have 2: "status (verifyConstraintCompliance text ctx) = FAIL \<longrightarrow>
        missing_element (verifyConstraintCompliance text ctx) =
          Some (content_text (hd (filter ?E (constraint_objects ctx))))"
    by (simp add: verifyConstraintCompliance_def Let_def m hd_conv_nth hd_map del: filter_map)
  from 1 2 show ?thesis
    by (simp only: keywords_of_def simp_thms)
qed

theorem verifyConstraintCompliance_status_cases_witness:
  "status (verifyConstraintCompliance ''The stop was lawful'' stop_context) = FAIL
   \<and> missing_element (verifyConstraintCompliance ''The stop was lawful'' stop_context)
       = Some ''Reasonable suspicion''"
proof -
  have f: "status (verifyConstraintCompliance ''The stop was lawful'' stop_context) = FAIL"
    by code_simp
  have h: "content_text (hd (filter (\<lambda>c. is_element_factor c
            \<and> keywords_of (content_text c) \<noteq> []
            \<and> \<not> (\<exists>kw \<in> set (keywords_of (content_text c)).
                    sublist kw (toLowerCase ''The stop was lawful'')))
            (constraint_objects stop_context))) = ''Reasonable suspicion''"
    by code_simp
  from verifyConstraintCompliance_status_cases [of "''The stop was lawful''" stop_context] f
  have "missing_element (verifyConstraintCompliance ''The stop was lawful'' stop_context) =
          Some (content_text (hd (filter (\<lambda>c. is_element_factor c
            \<and> keywords_of (content_text c) \<noteq> []
            \<and> \<not> (\<exists>kw \<in> set (keywords_of (content_text c)).
                    sublist kw (toLowerCase ''The stop was lawful'')))
            (constraint_objects stop_context))))"
    by blast
  with f h show ?thesis
    by (simp only: simp_thms)
qed

text \<open>
  As first stated, the claim asks for a warning whenever none of the first three
  significant words of some required-test constraint occurs in the text. A test
  constraint without any word longer than 3 characters has no such word in the text,
  and the check still passes: the code warns only for a constraint that has a keyword.
\<close>

theorem verifyConstraintCompliance_short_test_counterexample:
  "is_test_standard (test_constraint ''a b c'')
   \<and> \<not> list_ex (\<lambda>kw. sublist kw (toLowerCase ''hello''))
        (take 3 (keywords_of (content_text (test_constraint ''a b c''))))
   \<and> filter is_element_factor (constraint_objects (context_of [roe] [test_constraint ''a b c''])) = []
   \<and> status (verifyConstraintCompliance ''hello'' (context_of [roe] [test_constraint ''a b c'']))
       = PASS"
  by code_simp



section \<open>Properties of the generation loop\<close>

text \<open>
  Claim C4 at a concrete request. The text draws a warning from the constraint check and
  nothing else, so the report has severity MINOR and overall status PASSED. The loop
  tests the overall status first: it ends after one call with status \<open>validated\<close>, and
  the branch that sets \<open>flagged\<close> for a MINOR severity is never reached.
\<close>

theorem generation_loop_minor_outcome_validated:
  "severity (validateGeneratedText ''The stop was lawful'' warn_context) = Some MINOR
   \<and> gen_status (run_generation (\<lambda>n. ''The stop was lawful'') warn_context NotGiven) = validated
   \<and> iterations (run_generation (\<lambda>n. ''The stop was lawful'') warn_context NotGiven) = 1"
proof -
  have c: "status (verifyCitations ''The stop was lawful'' (reasoning_objects warn_context)) = PASS"
    by code_simp
  have "extractRuleStatements ''The stop was lawful'' = []"
    by code_simp
  then have r: "status (verifyRuleMappings ''The stop was lawful''
      (reasoning_objects warn_context)) = PASS"
    by (simp add: verifyRuleMappings_status unmapped_def)
  have w: "status (verifyConstraintCompliance ''The stop was lawful'' warn_context) = WARNING"
    by code_simp
  from validateGeneratedText_report [of "''The stop was lawful''" warn_context]
  have sev: "severity (validateGeneratedText ''The stop was lawful'' warn_context) = Some MINOR"
    and ov: "overall_status (validateGeneratedText ''The stop was lawful'' warn_context) = PASSED"
    by (simp_all add: c r w)
  have "generation_loop (\<lambda>n. ''The stop was lawful'') warn_context 3 initial_state =
      initial_state\<lparr>iterations := 1, generatedText := ''The stop was lawful'',
        validationReport := Some (validateGeneratedText ''The stop was lawful'' warn_context),
        gen_status := validated\<rparr>"
    by (subst generation_loop.simps) (simp add: initial_state_def Let_def ov)
  with sev show ?thesis
    by (simp add: run_generation_def MAX_ITERATIONS_def initial_state_def)
qed

theorem generation_loop_minor_outcome_not_flagged:
  "gen_status (run_generation (\<lambda>n. ''The stop was lawful'') warn_context NotGiven) \<noteq> flagged"
  using generation_loop_minor_outcome_validated by simp

text \<open>
  One step of the loop for each outcome of the validation: a passed report (a MINOR
  severity included) and a CRITICAL one end the loop, a MAJOR one calls the model
  again while attempts remain and ends the loop with \<open>flagged\<close> on the last attempt.
\<close>

lemma minor_is_passed:
  "severity (validateGeneratedText t ctx) = Some MINOR \<Longrightarrow>
   overall_status (validateGeneratedText t ctx) = PASSED"
  using validateGeneratedText_report [of t ctx] by (auto split: if_splits)

lemma failed_of_severity:
  "severity (validateGeneratedText t ctx) = Some MAJOR \<or>
   severity (validateGeneratedText t ctx) = Some CRITICAL \<Longrightarrow>
   overall_status (validateGeneratedText t ctx) = FAILED"
  using validateGeneratedText_report [of t ctx] by (auto split: if_splits)

lemma generation_loop_passed:
  assumes "int (iterations st) < m"
    and "overall_status (validateGeneratedText (outputs (iterations st + 1)) ctx) = PASSED"
  shows "generation_loop outputs ctx m st =
     st\<lparr>iterations := iterations st + 1, generatedText := outputs (iterations st + 1),
        validationReport := Some (validateGeneratedText (outputs (iterations st + 1)) ctx),
        gen_status := validated\<rparr>"
  using assms by (subst generation_loop.simps) (simp add: Let_def)

lemma generation_loop_critical:
  assumes "int (iterations st) < m"
    and "severity (validateGeneratedText (outputs (iterations st + 1)) ctx) = Some CRITICAL"
  shows "generation_loop outputs ctx m st =
     st\<lparr>iterations := iterations st + 1, generatedText := outputs (iterations st + 1),
        validationReport := Some (validateGeneratedText (outputs (iterations st + 1)) ctx),
        gen_status := rejected\<rparr>"
proof -
  from assms(2) have "overall_status (validateGeneratedText (outputs (iterations st + 1)) ctx) = FAILED"
    by (simp add: failed_of_severity)
  with assms show ?thesis
    by (subst generation_loop.simps) (simp add: Let_def)
qed

lemma generation_loop_major_retry:
  assumes "int (iterations st) + 1 < m"
    and "severity (validateGeneratedText (outputs (iterations st + 1)) ctx) = Some MAJOR"
  shows "generation_loop outputs ctx m st =
     generation_loop outputs ctx m
       (st\<lparr>iterations := iterations st + 1, generatedText := outputs (iterations st + 1),
          validationReport := Some (validateGeneratedText (outputs (iterations st + 1)) ctx)\<rparr>)"
proof -
  from assms(2) have "overall_status (validateGeneratedText (outputs (iterations st + 1)) ctx) = FAILED"
    by (simp add: failed_of_severity)
  with assms show ?thesis
    by (subst generation_loop.simps) (simp add: Let_def)
qed

lemma generation_loop_major_last:
  assumes "int (iterations st) + 1 = m"
    and "severity (validateGeneratedText (outputs (iterations st + 1)) ctx) = Some MAJOR"
  shows "generation_loop outputs ctx m st =
     st\<lparr>iterations := iterations st + 1, generatedText := outputs (iterations st + 1),
        validationReport := Some (validateGeneratedText (outputs (iterations st + 1)) ctx),
        gen_status := flagged\<rparr>"
proof -
  from assms(2) have "overall_status (validateGeneratedText (outputs (iterations st + 1)) ctx) = FAILED"
    by (simp add: failed_of_severity)
  with assms show ?thesis
    by (subst generation_loop.simps, simp add: Let_def, subst generation_loop.simps, simp)
qed

lemma generation_loop_minor:
  assumes "int (iterations st) < m"
    and "severity (validateGeneratedText (outputs (iterations st + 1)) ctx) = Some MINOR"
  shows "generation_loop outputs ctx m st =
     st\<lparr>iterations := iterations st + 1, generatedText := outputs (iterations st + 1),
        validationReport := Some (validateGeneratedText (outputs (iterations st + 1)) ctx),
        gen_status := validated\<rparr>"
  using assms(1) minor_is_passed [OF assms(2)] by (rule generation_loop_passed)

section \<open>Properties of the similarity\<close>

lemma split_runs_Nil: "split_runs sep [] = [[]]"
  by (subst split_runs.simps) simp

text \<open>
  Claim C8 at the empty string. \<open>''.split(/\s+/)\<close> is one empty word, so the vector of
  the empty string has magnitude 1 and the guard for a zero magnitude does not apply:
  the similarity of the empty string with itself is 1, and a text that ends in white
  space, whose words include the empty word, has a similarity above 0 with it (for
  \<open>'search '\<close> the double 0.7071067811865475).
\<close>

theorem computeSimilarity_empty_texts:
  "computeSimilarity [] [] = 1
   \<and> computeSimilarity ''search '' [] = 6369051672525772 / 2 ^ 53"
proof -
  have e: "computeSimilarity [] [] = 1"
    by (simp add: computeSimilarity_def toLowerCase_def split_runs_Nil uniq_def)
  have w: "split_runs is_space (toLowerCase ''search '') = [''search'', []]"
    by code_simp
  have n: "toLowerCase [] = []"
    by (simp add: toLowerCase_def)
  have "computeSimilarity ''search '' [] =
      to_double (1 / to_double (6369051672525773 / 2 ^ 52))"
    unfolding computeSimilarity_def w n split_runs_Nil
    by (simp add: uniq_def Let_def sqrt2_double)
  also have "\<dots> = to_double (1 / (6369051672525773 / 2 ^ 52))"
    by (simp only: sqrt2_double_fixed)
  also have "\<dots> = 6369051672525772 / 2 ^ 53"
    by (rule inverse_double)
  finally show ?thesis
    using e by simp
qed

theorem computeSimilarity_empty_texts_not_zero:
  "computeSimilarity [] [] \<noteq> 0 \<and> computeSimilarity ''search '' [] \<noteq> 0"
  using computeSimilarity_empty_texts by simp

text \<open>
  Rounding in the cosine of a text with itself: the product of the two rounded roots is
  not the sum of squares, so the quotient is the double below 1 for \<open>'a b'\<close> and the
  double above 1 for \<open>'a b c'\<close>.
\<close>

lemma sqrt3_double: "to_double (sqrt 3) = 7800463371553962 / 2 ^ 52"
proof -
  have "(7800463371553962 - 1 / 2) / 2 ^ 52 < sqrt 3"
    by (rule real_less_rsqrt) (simp add: power2_eq_square)
  moreover have "sqrt 3 < (7800463371553962 + 1 / 2) / 2 ^ 52"
    by (rule real_less_lsqrt) (simp_all add: power2_eq_square)
  ultimately show ?thesis
    using to_double_between [of 7800463371553962 52 "sqrt 3"] by simp
qed

lemma self_similarity_doubles:
  "to_double (6369051672525773 / 2 ^ 52 * (6369051672525773 / 2 ^ 52))
     = 4503599627370497 / 2 ^ 51"
  "to_double (2 / (4503599627370497 / 2 ^ 51)) = 9007199254740990 / 2 ^ 53"
  "to_double (7800463371553962 / 2 ^ 52 * (7800463371553962 / 2 ^ 52))
     = 6755399441055743 / 2 ^ 51"
  "to_double (3 / (6755399441055743 / 2 ^ 51)) = 4503599627370497 / 2 ^ 52"
  using to_double_between [of 4503599627370497 51
      "6369051672525773 / 2 ^ 52 * (6369051672525773 / 2 ^ 52)"]
    to_double_between [of 9007199254740990 53 "2 / (4503599627370497 / 2 ^ 51)"]
    to_double_between [of 6755399441055743 51
      "7800463371553962 / 2 ^ 52 * (7800463371553962 / 2 ^ 52)"]
    to_double_between [of 4503599627370497 52 "3 / (6755399441055743 / 2 ^ 51)"]
  by simp_all

lemma computeSimilarity_self_rounding:
  "computeSimilarity ''a b'' ''a b'' = 9007199254740990 / 2 ^ 53
   \<and> computeSimilarity ''a b'' ''a b'' < 1
   \<and> computeSimilarity ''a b c'' ''a b c'' = 4503599627370497 / 2 ^ 52
   \<and> 1 < computeSimilarity ''a b c'' ''a b c''"
proof -
  have w2: "split_runs is_space (toLowerCase ''a b'') = [''a'', ''b'']"
    by code_simp
  have w3: "split_runs is_space (toLowerCase ''a b c'') = [''a'', ''b'', ''c'']"
    by code_simp
  have "computeSimilarity ''a b'' ''a b'' =
      to_double (2 / to_double (6369051672525773 / 2 ^ 52 * (6369051672525773 / 2 ^ 52)))"
    unfolding computeSimilarity_def w2
    by (simp add: uniq_def Let_def sqrt2_double)
  also have "\<dots> = 9007199254740990 / 2 ^ 53"
    by (simp only: self_similarity_doubles)
  finally have two: "computeSimilarity ''a b'' ''a b'' = 9007199254740990 / 2 ^ 53" .
  have "computeSimilarity ''a b c'' ''a b c'' =
      to_double (3 / to_double (7800463371553962 / 2 ^ 52 * (7800463371553962 / 2 ^ 52)))"
    unfolding computeSimilarity_def w3
    by (simp add: uniq_def Let_def sqrt3_double)
  also have "\<dots> = 4503599627370497 / 2 ^ 52"
    by (simp only: self_similarity_doubles)
  finally have three: "computeSimilarity ''a b c'' ''a b c'' = 4503599627370497 / 2 ^ 52" .
  from two three show ?thesis
    by simp
qed


section \<open>Properties of the path computation\<close>










end
